theory Spec2Isabelle
  imports Complex_Main "HOL-Library.Sublist"
begin

section \<open>Python exceptions\<close>

text \<open>
  The exceptions the modelled functions can raise.  A function that may raise returns
  \<open>py_error + 'a\<close>, with \<open>Inl\<close> for the exception.
\<close>

datatype py_error =
    UnboundLocalError string  \<comment> \<open>the name of the unassigned local variable\<close>
  | AttributeError string
  | KeyError string
  | ValueError string
  | InvalidArgumentError string

text \<open>Applying a function that may raise to every element, stopping at the first exception.\<close>

fun map_result :: "('a \<Rightarrow> py_error + 'b) \<Rightarrow> 'a list \<Rightarrow> py_error + 'b list" where
  "map_result f [] = Inr []"
| "map_result f (x # xs) =
     (case f x of
        Inl e \<Rightarrow> Inl e
      | Inr y \<Rightarrow> (case map_result f xs of Inl e \<Rightarrow> Inl e | Inr ys \<Rightarrow> Inr (y # ys)))"

section \<open>Long-sequence prediction aggregator: \<open>OrdinalRegressor.predict\<close>\<close>

text \<open>
  \<open>process_long_sequence\<close> yields 5-tuples
  \<open>(input, start_of_doc, end_of_doc, label, meta)\<close>; \<open>predict\<close> ignores the first and
  the last component.
\<close>

type_synonym ('i, 'a, 'm) chunk = "'i \<times> bool \<times> bool \<times> 'a \<times> 'm"

definition start_of_doc :: "('i, 'a, 'm) chunk \<Rightarrow> bool" where
  "start_of_doc c = fst (snd c)"

definition end_of_doc :: "('i, 'a, 'm) chunk \<Rightarrow> bool" where
  "end_of_doc c = fst (snd (snd c))"

definition label :: "('i, 'a, 'm) chunk \<Rightarrow> 'a" where
  "label c = fst (snd (snd (snd c)))"

text \<open>
  The local variable \<open>doc_labels\<close> of \<open>predict\<close>: not yet assigned, a Python list
  (after \<open>doc_labels = []\<close>), or a numpy array (after \<open>doc_labels = np.asarray(doc_labels)\<close>).
  Only the Python list has an \<open>append\<close> method.
\<close>

datatype 'a doc_labels = Unbound | ListObj "'a list" | NdArray "'a list"

text \<open>
  \<open>np.unique\<close>: the sorted distinct values.  \<open>scipy.stats.mode(a).mode\<close> for a
  one-dimensional array: an array holding the most frequent value, the smallest one when
  several values are equally frequent (the scores are visited in increasing order and a
  later score replaces the current one only when it is strictly more frequent); the empty
  array for an empty input.
\<close>

definition unique :: "'a::linorder list \<Rightarrow> 'a list" where
  "unique a = sort (remdups a)"

definition mode :: "'a::linorder list \<Rightarrow> 'a list" where
  "mode a =
     (case unique a of
        [] \<Rightarrow> []
      | score # scores \<Rightarrow>
          [fold (\<lambda>s mostfrequent.
                   if count_list a mostfrequent < count_list a s then s else mostfrequent)
                scores score])"

text \<open>
  Python values in the returned list: an opaque object or a Python list.
  \<open>ndarray.tolist\<close> of an array with a leading axis is the Python list of its rows.
\<close>

datatype 'b pyval = PyObj 'b | PyList "'b pyval list"

definition tolist :: "'b list \<Rightarrow> 'b pyval" where
  "tolist arr = PyList (map PyObj arr)"

text \<open>
  One iteration of the loop of \<open>predict\<close>.  The label encoder's \<open>inverse_transform\<close>
  is a collaborator outside this module and is a parameter: it maps an array of encoded
  rows to the array of decoded rows.  \<open>np.asarray([doc_mode])\<close> is the one-row array
  whose row is the mode array.
\<close>

fun predict_step ::
  "('a::linorder list list \<Rightarrow> 'b list) \<Rightarrow> 'b pyval list \<times> 'a doc_labels \<Rightarrow>
   ('i, 'a, 'm) chunk \<Rightarrow> py_error + ('b pyval list \<times> 'a doc_labels)" where
  "predict_step inverse_transform (all_labels, doc_labels) c =
     (let doc_labels = (if start_of_doc c then ListObj [] else doc_labels) in
      case doc_labels of
        Unbound \<Rightarrow> Inl (UnboundLocalError ''doc_labels'')
      | NdArray _ \<Rightarrow> Inl (AttributeError ''numpy.ndarray object has no attribute append'')
      | ListObj ls \<Rightarrow>
          (let ls = ls @ [label c] in
           if end_of_doc c then
             (let doc_mode = mode ls;
                  decoded = inverse_transform [doc_mode]
              in Inr (all_labels @ [tolist decoded], NdArray ls))
           else Inr (all_labels, ListObj ls)))"

fun predict_loop ::
  "('a::linorder list list \<Rightarrow> 'b list) \<Rightarrow> 'b pyval list \<times> 'a doc_labels \<Rightarrow>
   ('i, 'a, 'm) chunk list \<Rightarrow> py_error + ('b pyval list \<times> 'a doc_labels)" where
  "predict_loop inverse_transform st [] = Inr st"
| "predict_loop inverse_transform st (c # cs) =
     (case predict_step inverse_transform st c of
        Inl e \<Rightarrow> Inl e
      | Inr st' \<Rightarrow> predict_loop inverse_transform st' cs)"

text \<open>
  \<open>predict\<close> on the stream that \<open>process_long_sequence(X, context)\<close> yields: the loop
  starts with an empty \<open>all_labels\<close> and an unassigned \<open>doc_labels\<close>.
\<close>

definition predict ::
  "('a::linorder list list \<Rightarrow> 'b list) \<Rightarrow> ('i, 'a, 'm) chunk list \<Rightarrow>
   py_error + 'b pyval list" where
  "predict inverse_transform chunks =
     (case predict_loop inverse_transform ([], Unbound) chunks of
        Inl e \<Rightarrow> Inl e
      | Inr (all_labels, _) \<Rightarrow> Inr all_labels)"

subsection \<open>Notions the properties of the aggregator are stated with\<close>

text \<open>
  The start/end boundary invariant of a chunk stream: a chunk carries \<open>start_of_doc\<close>
  exactly when no document is open, a document stays open until a chunk carries
  \<open>end_of_doc\<close>, and the stream ends with no document open.
\<close>

fun boundary_invariant_from :: "bool \<Rightarrow> ('i, 'a, 'm) chunk list \<Rightarrow> bool" where
  "boundary_invariant_from in_doc [] = (\<not> in_doc)"
| "boundary_invariant_from in_doc (c # cs) =
     (start_of_doc c = (\<not> in_doc) \<and> boundary_invariant_from (\<not> end_of_doc c) cs)"

definition boundary_invariant :: "('i, 'a, 'm) chunk list \<Rightarrow> bool" where
  "boundary_invariant chunks = boundary_invariant_from False chunks"

text \<open>
  The documents of a stream, each as the list of its chunks' labels: a document ends with
  each chunk that carries \<open>end_of_doc\<close>.  \<open>documents [] chunks\<close> lists them in order.
\<close>

fun documents :: "'a list \<Rightarrow> ('i, 'a, 'm) chunk list \<Rightarrow> 'a list list" where
  "documents cur [] = []"
| "documents cur (c # cs) =
     (if end_of_doc c then (cur @ [label c]) # documents [] cs
      else documents (cur @ [label c]) cs)"

text \<open>The label emitted for a document: the decoded mode of its labels, as a Python list.\<close>

definition emit :: "('a::linorder list list \<Rightarrow> 'b list) \<Rightarrow> 'a list \<Rightarrow> 'b pyval" where
  "emit inverse_transform doc = tolist (inverse_transform [mode doc])"

text \<open>
  Two ways a stream can be malformed: its first chunk does not carry \<open>start_of_doc\<close>
  (\<open>headless\<close>), or a chunk that does not carry \<open>start_of_doc\<close> directly follows a chunk
  that carries \<open>end_of_doc\<close> (\<open>orphan_after_end\<close>).
\<close>

definition headless :: "('i, 'a, 'm) chunk list \<Rightarrow> bool" where
  "headless chunks = (case chunks of [] \<Rightarrow> False | c # _ \<Rightarrow> \<not> start_of_doc c)"

fun orphan_after_end :: "('i, 'a, 'm) chunk list \<Rightarrow> bool" where
  "orphan_after_end (c # c' # cs) =
     ((end_of_doc c \<and> \<not> start_of_doc c') \<or> orphan_after_end (c' # cs))"
| "orphan_after_end _ = False"

fun is_list :: "'a doc_labels \<Rightarrow> bool" where
  "is_list (ListObj _) = True"
| "is_list _ = False"

section \<open>\<open>OrdinalRegressor.predict_proba\<close>\<close>

text \<open>
  The body is a single \<open>raise\<close>.  \<open>ComparisonOrdinalRegressor\<close> does not override the
  method and inherits it.
\<close>

definition predict_proba :: "'x \<Rightarrow> 'c option \<Rightarrow> py_error + 'r" where
  "predict_proba X context =
     Inl (AttributeError ''`Regressor` model does not support `predict_proba`.'')"

definition comparison_predict_proba :: "'x \<Rightarrow> 'c option \<Rightarrow> py_error + 'r" where
  "comparison_predict_proba X context = predict_proba X context"

section \<open>Comparison transform: \<open>ComparisonOrdinalRegressor._target_model\<close>\<close>

text \<open>
  A tensor as nested lists: a scalar entry, or the list of its slices along the first
  axis.  All slices of a tensor have one shape; nested lists of unequal shapes stand for
  no tensor, and the elementwise sum cuts them to their common part.
\<close>

datatype 'a tensor = Scalar 'a | Tensor "'a tensor list"

fun tensor_add :: "'a::plus tensor \<Rightarrow> 'a tensor \<Rightarrow> 'a tensor"
  and tensor_add_list :: "'a tensor list \<Rightarrow> 'a tensor list \<Rightarrow> 'a tensor list" where
  "tensor_add (Scalar a) (Scalar b) = Scalar (a + b)"
| "tensor_add (Tensor xs) (Tensor ys) = Tensor (tensor_add_list xs ys)"
| "tensor_add (Scalar a) (Tensor ys) = Tensor []"
| "tensor_add (Tensor xs) (Scalar b) = Tensor []"
| "tensor_add_list (x # xs) (y # ys) = tensor_add x y # tensor_add_list xs ys"
| "tensor_add_list [] ys = []"
| "tensor_add_list (x # xs) [] = []"

text \<open>
  \<open>tf.reduce_sum(t, 1)\<close>: for every entry of the first axis, the sum of its slices
  along the second axis, added from left to right.  A tensor of rank below two has no
  axis 1.  An axis of size zero gives the empty tensor (its zero entries have no shape in
  this representation).
\<close>

fun sum_slices :: "'a::plus tensor list \<Rightarrow> 'a tensor" where
  "sum_slices [] = Tensor []"
| "sum_slices (s # ss) = fold (\<lambda>x acc. tensor_add acc x) ss s"

definition reduce_sum_row :: "'a::plus tensor \<Rightarrow> py_error + 'a tensor" where
  "reduce_sum_row row =
     (case row of
        Scalar _ \<Rightarrow> Inl (InvalidArgumentError ''Invalid reduction dimension 1'')
      | Tensor slices \<Rightarrow> Inr (sum_slices slices))"

definition reduce_sum_1 :: "'a::plus tensor \<Rightarrow> py_error + 'a tensor" where
  "reduce_sum_1 t =
     (case t of
        Scalar _ \<Rightarrow> Inl (InvalidArgumentError ''Invalid reduction dimension 1'')
      | Tensor batch \<Rightarrow>
          (case map_result reduce_sum_row batch of
             Inl e \<Rightarrow> Inl e
           | Inr rows \<Rightarrow> Inr (Tensor rows)))"

definition tf_abs :: "'a::abs tensor \<Rightarrow> 'a tensor" where
  "tf_abs t = map_tensor abs t"

text \<open>
  \<open>featurizer_state\<close> is a dictionary from entry names to tensors.  Each of the three
  assignments of \<open>_target_model\<close> has the form
  \<open>featurizer_state[key] = tf.abs(tf.reduce_sum(featurizer_state[key], 1))\<close>.
\<close>

type_synonym 'a featurizer_state = "string \<rightharpoonup> 'a tensor"

definition abs_reduce_sum ::
  "string \<Rightarrow> 'a::{plus,abs} featurizer_state \<Rightarrow> py_error + 'a featurizer_state" where
  "abs_reduce_sum key featurizer_state =
     (case featurizer_state key of
        None \<Rightarrow> Inl (KeyError key)
      | Some t \<Rightarrow>
          (case reduce_sum_1 t of
             Inl e \<Rightarrow> Inl e
           | Inr s \<Rightarrow> Inr (featurizer_state(key \<mapsto> tf_abs s))))"

text \<open>
  \<open>_target_model\<close> of the comparison head.  The parent's \<open>_target_model\<close> (the ordinal
  head, which computes the logits from the featurizer state) is outside this module and
  is a parameter.
\<close>

definition comparison_target_model ::
  "('a::{plus,abs} featurizer_state \<Rightarrow> 'r) \<Rightarrow> 'a featurizer_state \<Rightarrow> py_error + 'r" where
  "comparison_target_model super_target_model featurizer_state =
     (case abs_reduce_sum ''sequence_features'' featurizer_state of
        Inl e \<Rightarrow> Inl e
      | Inr st1 \<Rightarrow>
          (case abs_reduce_sum ''features'' st1 of
             Inl e \<Rightarrow> Inl e
           | Inr st2 \<Rightarrow>
               (if st2 ''context'' \<noteq> None
                then (case abs_reduce_sum ''context'' st2 of
                        Inl e \<Rightarrow> Inl e
                      | Inr st3 \<Rightarrow> Inr (super_target_model st3))
                else Inr (super_target_model st2))))"

subsection \<open>Notions the symmetry of the transform is stated with\<close>

text \<open>
  The transform of one entry, \<open>tf.abs(tf.reduce_sum(t, 1))\<close>; and the exchange of the two
  documents of every pair: along axis 1, the two slices change places.
\<close>

definition comparison_transform :: "'a::{plus,abs} tensor \<Rightarrow> py_error + 'a tensor" where
  "comparison_transform t =
     (case reduce_sum_1 t of Inl e \<Rightarrow> Inl e | Inr s \<Rightarrow> Inr (tf_abs s))"

fun swap_pair :: "'a tensor \<Rightarrow> 'a tensor" where
  "swap_pair (Tensor [a, b]) = Tensor [b, a]"
| "swap_pair t = t"

fun swap_documents :: "'a tensor \<Rightarrow> 'a tensor" where
  "swap_documents (Tensor batch) = Tensor (map swap_pair batch)"
| "swap_documents (Scalar x) = Scalar x"

definition swap_state :: "'a featurizer_state \<Rightarrow> 'a featurizer_state" where
  "swap_state st =
     (\<lambda>key. if key = ''sequence_features'' \<or> key = ''features'' \<or> key = ''context''
            then map_option swap_documents (st key) else st key)"

definition swapped_on :: "string set \<Rightarrow> 'a featurizer_state \<Rightarrow> 'a featurizer_state \<Rightarrow> bool" where
  "swapped_on K st st' =
     (\<forall>key. st' key = (if key \<in> K then map_option swap_documents (st key) else st key))"

section \<open>Featurizer adapter: \<open>finetune_featurizer\<close>\<close>

subsection \<open>End-of-sequence index\<close>








subsection \<open>Low-memory mode\<close>

text \<open>
  An encoder layer with its \<open>__call__\<close> and its trainable weights.  \<open>recompute_grad\<close>
  builds a wrapper around a call.  The body of the loop is the expression statement
  \<open>layer.__call__ == recompute_grad(layer.__call__, train_vars=layer.trainable_weights)\<close>:
  it compares the two values and drops the result.
\<close>

datatype 'w layer_call = LayerCall nat | RecomputeGrad "'w layer_call" "'w list"

record 'w encoder_layer =
  call :: "'w layer_call"
  trainable_weights :: "'w list"

record config =
  low_memory_mode :: bool

definition recompute_grad :: "'w layer_call \<Rightarrow> 'w list \<Rightarrow> 'w layer_call" where
  "recompute_grad fn train_vars = RecomputeGrad fn train_vars"

definition low_memory_statement :: "'w encoder_layer \<Rightarrow> 'w encoder_layer" where
  "low_memory_statement layer =
     (let compared = (call layer = recompute_grad (call layer) (trainable_weights layer))
      in layer)"

definition low_memory_layers ::
  "config \<Rightarrow> bool \<Rightarrow> 'w encoder_layer list \<Rightarrow> 'w encoder_layer list" where
  "low_memory_layers cfg train layers =
     (if low_memory_mode cfg \<and> train then map low_memory_statement layers else layers)"

section \<open>Encoder shim: \<open>HuggingFaceEncoder\<close>\<close>






section \<open>Weight importer: \<open>load_weights_from_hdf5_group_by_name\<close>\<close>

subsection \<open>\<open>str.replace\<close>\<close>

text \<open>
  \<open>s.replace(fro, to)\<close> scans \<open>s\<close> from the left and replaces each occurrence of \<open>fro\<close>
  it meets, continuing behind the occurrence; the pattern is literal text.  For the empty
  pattern, \<open>to\<close> is put before every character and at the end.
\<close>

function replace_scan :: "string \<Rightarrow> string \<Rightarrow> string \<Rightarrow> string" where
  "replace_scan fro to [] = []"
| "replace_scan fro to (c # cs) =
     (if fro \<noteq> [] \<and> take (length fro) (c # cs) = fro
      then to @ replace_scan fro to (drop (length fro) (c # cs))
      else c # replace_scan fro to cs)"
  by pat_completeness auto
termination
  by (relation "measure (\<lambda>(fro, to, s). length s)") auto

definition replace :: "string \<Rightarrow> string \<Rightarrow> string \<Rightarrow> string" where
  "replace s fro to =
     (if fro = [] then to @ concat (map (\<lambda>c. c # to) s) else replace_scan fro to s)"

subsection \<open>The archive\<close>

text \<open>
  An HDF5 object is a dataset or a group; both carry attributes, a group has named
  members.  An attribute holds a list of names (Keras splits an attribute too large for
  one header into numbered chunks; the archive is taken with such chunks joined).  Member
  lookup \<open>g[name]\<close> raises \<open>KeyError\<close> for a missing name and is not defined on a dataset
  of plain numbers.
\<close>

type_synonym attrs = "(string \<times> string list) list"

datatype 'w h5 = Dataset attrs 'w | Group attrs "(string \<times> 'w h5) list"

fun attrs_of :: "'w h5 \<Rightarrow> attrs" where
  "attrs_of (Dataset a _) = a"
| "attrs_of (Group a _) = a"

fun getitem :: "'w h5 \<Rightarrow> string \<Rightarrow> py_error + 'w h5" where
  "getitem (Group _ members) name =
     (case map_of members name of None \<Rightarrow> Inl (KeyError name) | Some node \<Rightarrow> Inr node)"
| "getitem (Dataset _ _) name = Inl (ValueError ''Field names only allowed for compound types'')"

definition load_attributes_from_hdf5_group :: "'w h5 \<Rightarrow> string \<Rightarrow> string list" where
  "load_attributes_from_hdf5_group grp name =
     (case map_of (attrs_of grp) name of None \<Rightarrow> [] | Some data \<Rightarrow> data)"

subsection \<open>The importer\<close>

text \<open>The inner loop over the rewrite rules: \<open>output_name = output_name.replace(fro, to)\<close>.\<close>

definition rewrite_name :: "(string \<times> string) list \<Rightarrow> string \<Rightarrow> string" where
  "rewrite_name weights_replacement name =
     fold (\<lambda>(fro, to) output_name. replace output_name fro to) weights_replacement name"

text \<open>
  The loop over the weight names of one layer group \<open>g\<close>, and the loop over the layer
  names of \<open>f\<close>.  \<open>np.asarray\<close>, applied to the HDF5 object found, is a parameter.
\<close>

fun weights_loop ::
  "('w h5 \<Rightarrow> 'v) \<Rightarrow> (string \<times> string) list \<Rightarrow> 'w h5 \<Rightarrow> (string \<rightharpoonup> 'v) \<Rightarrow>
   string list \<Rightarrow> py_error + (string \<rightharpoonup> 'v)" where
  "weights_loop asarray weights_replacement g weight_lookup [] = Inr weight_lookup"
| "weights_loop asarray weights_replacement g weight_lookup (name # names) =
     (let output_name = rewrite_name weights_replacement name in
      case getitem g name of
        Inl e \<Rightarrow> Inl e
      | Inr node \<Rightarrow>
          weights_loop asarray weights_replacement g
            (weight_lookup(output_name \<mapsto> asarray node)) names)"

fun layers_loop ::
  "('w h5 \<Rightarrow> 'v) \<Rightarrow> (string \<times> string) list \<Rightarrow> 'w h5 \<Rightarrow> (string \<rightharpoonup> 'v) \<Rightarrow>
   string list \<Rightarrow> py_error + (string \<rightharpoonup> 'v)" where
  "layers_loop asarray weights_replacement f weight_lookup [] = Inr weight_lookup"
| "layers_loop asarray weights_replacement f weight_lookup (name # layer_names) =
     (case getitem f name of
        Inl e \<Rightarrow> Inl e
      | Inr g \<Rightarrow>
          (case weights_loop asarray weights_replacement g weight_lookup
                  (load_attributes_from_hdf5_group g ''weight_names'') of
             Inl e \<Rightarrow> Inl e
           | Inr weight_lookup' \<Rightarrow>
               layers_loop asarray weights_replacement f weight_lookup' layer_names))"

text \<open>
  The opened file is a group, given by its attributes and its members.  When it has no
  \<open>layer_names\<close> attribute and has a member \<open>model_weights\<close>, that member takes its place.
\<close>

definition model_weights_group :: "attrs \<Rightarrow> (string \<times> 'w h5) list \<Rightarrow> 'w h5" where
  "model_weights_group file_attrs file_members =
     (if map_of file_attrs ''layer_names'' = None
      then (case map_of file_members ''model_weights'' of
              Some g \<Rightarrow> g
            | None \<Rightarrow> Group file_attrs file_members)
      else Group file_attrs file_members)"

definition load_weights_from_hdf5_group_by_name ::
  "('w h5 \<Rightarrow> 'v) \<Rightarrow> attrs \<Rightarrow> (string \<times> 'w h5) list \<Rightarrow> (string \<times> string) list \<Rightarrow>
   py_error + (string \<rightharpoonup> 'v)" where
  "load_weights_from_hdf5_group_by_name asarray file_attrs file_members weights_replacement =
     (let f = model_weights_group file_attrs file_members;
          layer_names = load_attributes_from_hdf5_group f ''layer_names''
      in layers_loop asarray weights_replacement f Map.empty layer_names)"

subsection \<open>Notions the properties of the importer are stated with\<close>

text \<open>
  \<open>sep.join(pieces)\<close>; the source entries of an archive: every weight name with the
  object stored under it, layer by layer, in reading order (or the first failed lookup);
  and the dictionary built by storing a list of entries in order under rewritten names.
\<close>

fun join :: "string \<Rightarrow> string list \<Rightarrow> string" where
  "join sep [] = []"
| "join sep [p] = p"
| "join sep (p # q # ps) = p @ sep @ join sep (q # ps)"

fun member_entries :: "'w h5 \<Rightarrow> string list \<Rightarrow> py_error + (string \<times> 'w h5) list" where
  "member_entries g [] = Inr []"
| "member_entries g (name # names) =
     (case getitem g name of
        Inl e \<Rightarrow> Inl e
      | Inr node \<Rightarrow>
          (case member_entries g names of
             Inl e \<Rightarrow> Inl e
           | Inr es \<Rightarrow> Inr ((name, node) # es)))"

fun source_entries :: "'w h5 \<Rightarrow> string list \<Rightarrow> py_error + (string \<times> 'w h5) list" where
  "source_entries f [] = Inr []"
| "source_entries f (name # layer_names) =
     (case getitem f name of
        Inl e \<Rightarrow> Inl e
      | Inr g \<Rightarrow>
          (case member_entries g (load_attributes_from_hdf5_group g ''weight_names'') of
             Inl e \<Rightarrow> Inl e
           | Inr es \<Rightarrow>
               (case source_entries f layer_names of
                  Inl e \<Rightarrow> Inl e
                | Inr es' \<Rightarrow> Inr (es @ es'))))"

definition store ::
  "('w h5 \<Rightarrow> 'v) \<Rightarrow> (string \<times> string) list \<Rightarrow> (string \<rightharpoonup> 'v) \<Rightarrow>
   (string \<times> 'w h5) list \<Rightarrow> (string \<rightharpoonup> 'v)" where
  "store asarray rules m es =
     fold (\<lambda>(name, node) m. m(rewrite_name rules name \<mapsto> asarray node)) es m"

section \<open>Proofs: the aggregator\<close>

subsection \<open>The mode\<close>

lemma fold_mostfrequent:
  "fold (\<lambda>s mostfrequent.
           if count_list a mostfrequent < count_list a s then s else mostfrequent) xs b = r \<Longrightarrow>
   r \<in> insert b (set xs) \<and> (\<forall>x \<in> insert b (set xs). count_list a x \<le> count_list a r)"
proof (induction xs arbitrary: b)
  case Nil
  then show ?case by simp
next
  case (Cons x xs)
  show ?case
  proof (cases "count_list a b < count_list a x")
    case True
    with Cons.prems have "fold (\<lambda>s mostfrequent.
           if count_list a mostfrequent < count_list a s then s else mostfrequent) xs x = r"
      by simp
    from Cons.IH[OF this] True show ?thesis by auto
  next
    case False
    with Cons.prems have "fold (\<lambda>s mostfrequent.
           if count_list a mostfrequent < count_list a s then s else mostfrequent) xs b = r"
      by simp
    from Cons.IH[OF this] False show ?thesis by auto
  qed
qed

lemma fold_mostfrequent_least:
  "fold (\<lambda>s mostfrequent.
           if count_list a mostfrequent < count_list a s then s else mostfrequent) xs b = r \<Longrightarrow>
   sorted (b # xs) \<Longrightarrow>
   (\<forall>x \<in> insert b (set xs). count_list a x = count_list a r \<longrightarrow> r \<le> x)"
proof (induction xs arbitrary: b)
  case Nil
  then show ?case by simp
next
  case (Cons x xs)
  show ?case
  proof (cases "count_list a b < count_list a x")
    case True
    with Cons.prems have f: "fold (\<lambda>s mostfrequent.
           if count_list a mostfrequent < count_list a s then s else mostfrequent) xs x = r"
      by simp
    from Cons.prems(2) have "sorted (x # xs)" by simp
    from Cons.IH[OF f this] fold_mostfrequent[OF f] True show ?thesis by auto
  next
    case False
    with Cons.prems have f: "fold (\<lambda>s mostfrequent.
           if count_list a mostfrequent < count_list a s then s else mostfrequent) xs b = r"
      by simp
    from Cons.prems(2) have s: "sorted (b # xs)" and bx: "b \<le> x" by auto
    from Cons.IH[OF f s] fold_mostfrequent[OF f] False bx show ?thesis
      by (metis insert_iff list.simps(15) linorder_not_less order.trans order_antisym_conv insertI1)
  qed
qed

lemma set_unique: "set (unique a) = set a"
  by (simp add: unique_def)

lemma sorted_unique: "sorted (unique a)"
  by (simp add: unique_def)

lemma mode_majority:
  assumes "a \<noteq> []"
  shows "\<exists>m. mode a = [m] \<and> m \<in> set a \<and> (\<forall>x. count_list a x \<le> count_list a m) \<and>
             (\<forall>x. count_list a x = count_list a m \<longrightarrow> m \<le> x)"
proof -
  from assms have "unique a \<noteq> []" using set_unique[of a] by auto
  then obtain score scores where u: "unique a = score # scores" by (cases "unique a") auto
  define m where "m = fold (\<lambda>s mostfrequent.
           if count_list a mostfrequent < count_list a s then s else mostfrequent) scores score"
  have md: "mode a = [m]" by (simp add: mode_def u m_def)
  have su: "insert score (set scores) = set a" using set_unique[of a] u by simp
  from fold_mostfrequent[OF m_def[symmetric]] su
  have mem: "m \<in> set a" and mx: "\<forall>x \<in> set a. count_list a x \<le> count_list a m" by auto
  have srt: "sorted (score # scores)" using sorted_unique[of a] u by simp
  from fold_mostfrequent_least[OF m_def[symmetric] srt] su
  have least: "\<forall>x \<in> set a. count_list a x = count_list a m \<longrightarrow> m \<le> x" by auto
  have pos: "0 < count_list a m" using mem count_list_0_iff[of a m] by auto
  have all: "\<forall>x. count_list a x \<le> count_list a m"
  proof
    fix x show "count_list a x \<le> count_list a m"
      using mx by (cases "x \<in> set a") (auto simp: count_list_0_iff)
  qed
  have least': "\<forall>x. count_list a x = count_list a m \<longrightarrow> m \<le> x"
  proof (intro allI impI)
    fix x assume "count_list a x = count_list a m"
    with pos have "x \<in> set a" using count_list_0_iff[of a x] by auto
    with least \<open>count_list a x = count_list a m\<close> show "m \<le> x" by auto
  qed
  from md mem all least' show ?thesis by blast
qed

lemma mode_single: "mode [l] = [l]"
  by (simp add: mode_def unique_def)

subsection \<open>The loop on streams that keep the boundary invariant\<close>

lemma loop_boundary_invariant:
  "boundary_invariant_from in_doc cs \<Longrightarrow>
   (in_doc \<longrightarrow> dl = ListObj cur) \<Longrightarrow> (\<not> in_doc \<longrightarrow> cur = []) \<Longrightarrow>
   \<exists>dl'. predict_loop itf (all_labels, dl) cs =
     Inr (all_labels @ map (emit itf) (documents cur cs), dl')"
proof (induction cs arbitrary: in_doc dl cur all_labels)
  case Nil
  then show ?case by simp
next
  case (Cons c cs)
  from Cons.prems have st: "start_of_doc c = (\<not> in_doc)"
    and rest: "boundary_invariant_from (\<not> end_of_doc c) cs" by simp_all
  have acc: "(if start_of_doc c then ListObj [] else dl) = ListObj cur"
    using st Cons.prems(2,3) by (cases in_doc) simp_all
  show ?case
  proof (cases "end_of_doc c")
    case True
    have step: "predict_step itf (all_labels, dl) c =
        Inr (all_labels @ [emit itf (cur @ [label c])], NdArray (cur @ [label c]))"
      using True acc by (simp add: emit_def Let_def)
    from Cons.IH[OF rest, of "NdArray (cur @ [label c])" "[]"
        "all_labels @ [emit itf (cur @ [label c])]"] True
    obtain dl' where "predict_loop itf
        (all_labels @ [emit itf (cur @ [label c])], NdArray (cur @ [label c])) cs =
        Inr ((all_labels @ [emit itf (cur @ [label c])]) @ map (emit itf) (documents [] cs), dl')"
      by auto
    then show ?thesis using step True by simp
  next
    case False
    have step: "predict_step itf (all_labels, dl) c = Inr (all_labels, ListObj (cur @ [label c]))"
      using False acc by (simp add: Let_def)
    from Cons.IH[OF rest, of "ListObj (cur @ [label c])" "cur @ [label c]" all_labels] False
    obtain dl' where "predict_loop itf (all_labels, ListObj (cur @ [label c])) cs =
        Inr (all_labels @ map (emit itf) (documents (cur @ [label c]) cs), dl')"
      by auto
    then show ?thesis using step False by simp
  qed
qed

lemma predict_boundary_invariant:
  "boundary_invariant chunks \<Longrightarrow>
   predict itf chunks = Inr (map (emit itf) (documents [] chunks))"
  using loop_boundary_invariant[of False chunks Unbound "[]" itf "[]"]
  by (auto simp: boundary_invariant_def predict_def)

lemma length_documents:
  "length (documents cur cs) = length (filter end_of_doc cs)"
  by (induction cs arbitrary: cur) simp_all

lemma documents_nonempty: "d \<in> set (documents cur cs) \<Longrightarrow> d \<noteq> []"
  by (induction cs arbitrary: cur) (auto split: if_splits)

text \<open>
  Claim C2.  For every chunk stream that keeps the start/end boundary invariant,
  \<open>predict\<close> returns, and the length of the returned list of document labels is the
  number of chunks of the stream whose \<open>end_of_doc\<close> flag is true.
\<close>

theorem predict_length_counts_end_of_doc:
  assumes "boundary_invariant chunks"
  shows "\<exists>out. predict itf chunks = Inr out \<and> length out = length (filter end_of_doc chunks)"
  using predict_boundary_invariant[OF assms, of itf] length_documents[of "[]" chunks]
  by simp

theorem predict_length_counts_end_of_doc_witness:
  "boundary_invariant
     [((), True, False, 1::nat, ()), ((), False, True, 2, ()), ((), True, True, 7, ())] \<and>
   (\<exists>out. predict (\<lambda>rows :: nat list list. rows)
       [((), True, False, 1::nat, ()), ((), False, True, 2, ()), ((), True, True, 7, ())] =
       Inr out \<and> length out = 2)"
  (is "boundary_invariant ?ex \<and> _")
proof -
  have b: "boundary_invariant ?ex"
    by (simp add: boundary_invariant_def start_of_doc_def end_of_doc_def)
  have c: "length (filter end_of_doc ?ex) = 2"
    by (simp add: end_of_doc_def)
  from predict_length_counts_end_of_doc[OF b, of "\<lambda>rows. rows"]
  have "\<exists>out. predict (\<lambda>rows :: nat list list. rows) ?ex = Inr out \<and> length out = 2"
    unfolding c .
  with b show ?thesis by blast
qed

text \<open>
  Claim C7.  For every chunk stream that keeps the boundary invariant, \<open>predict\<close> returns
  one label per document, in order, and the label of a document is the decode
  (\<open>inverse_transform\<close>, then \<open>tolist\<close>) of the mode of the document's chunk labels; the
  mode is a label of the document that no other value outnumbers (the smallest such
  label).  For a document of a single chunk the label is the decode of that chunk's label.
\<close>

theorem predict_emits_decoded_mode:
  assumes "boundary_invariant chunks"
  shows "predict itf chunks = Inr (map (\<lambda>doc. tolist (itf [mode doc])) (documents [] chunks)) \<and>
         (\<forall>doc \<in> set (documents [] chunks).
            \<exists>m. mode doc = [m] \<and> m \<in> set doc \<and>
                (\<forall>x. count_list doc x \<le> count_list doc m) \<and>
                (\<forall>x. count_list doc x = count_list doc m \<longrightarrow> m \<le> x)) \<and>
         predict itf [(i, True, True, l, meta)] = Inr [tolist (itf [[l]])]"
proof -
  have a: "predict itf chunks = Inr (map (\<lambda>doc. tolist (itf [mode doc])) (documents [] chunks))"
    using predict_boundary_invariant[OF assms, of itf] by (simp add: emit_def[abs_def])
  have b: "\<forall>doc \<in> set (documents [] chunks).
            \<exists>m. mode doc = [m] \<and> m \<in> set doc \<and>
                (\<forall>x. count_list doc x \<le> count_list doc m) \<and>
                (\<forall>x. count_list doc x = count_list doc m \<longrightarrow> m \<le> x)"
    using documents_nonempty mode_majority by blast
  have "boundary_invariant [(i, True, True, l, meta)]"
    by (simp add: boundary_invariant_def start_of_doc_def end_of_doc_def)
  from predict_boundary_invariant[OF this, of itf]
  have c: "predict itf [(i, True, True, l, meta)] = Inr [tolist (itf [[l]])]"
    by (simp add: emit_def end_of_doc_def label_def mode_single)
  from a b c show ?thesis by blast
qed

theorem predict_emits_decoded_mode_witness:
  "boundary_invariant
     [((), True, False, 3::nat, ()), ((), False, False, 2, ()), ((), False, True, 2, ()),
      ((), True, True, 7, ())] \<and>
   predict (\<lambda>rows :: nat list list. rows)
     [((), True, False, 3::nat, ()), ((), False, False, 2, ()), ((), False, True, 2, ()),
      ((), True, True, 7, ())] =
     Inr [PyList [PyObj [2]], PyList [PyObj [7]]]"
  (is "boundary_invariant ?ex \<and> _")
proof -
  have b: "boundary_invariant ?ex"
    by (simp add: boundary_invariant_def start_of_doc_def end_of_doc_def)
  have d: "documents [] ?ex = [[3, 2, 2], [7]]"
    by (simp add: end_of_doc_def label_def)
  have m1: "mode [3, 2, 2 :: nat] = [2]" by (simp add: mode_def unique_def)
  have m2: "mode [7 :: nat] = [7]" by (simp add: mode_def unique_def)
  from predict_emits_decoded_mode[OF b, of "\<lambda>rows. rows" "()" 0 "()"]
  have "predict (\<lambda>rows :: nat list list. rows) ?ex =
      Inr (map (\<lambda>doc. tolist [mode doc]) (documents [] ?ex))" by (rule conjunct1)
  then have "predict (\<lambda>rows :: nat list list. rows) ?ex =
      Inr [PyList [PyObj [2]], PyList [PyObj [7]]]"
    unfolding d by (simp add: m1 m2 tolist_def)
  with b show ?thesis by blast
qed



subsection \<open>When the loop raises\<close>

lemma step_bound:
  "dl \<noteq> Unbound \<Longrightarrow> is_list dl \<or> start_of_doc c \<Longrightarrow>
   \<exists>all' dl'. predict_step itf (all_labels, dl) c = Inr (all', dl') \<and>
      dl' \<noteq> Unbound \<and> is_list dl' = (\<not> end_of_doc c)"
  by (cases dl) (auto simp: Let_def)

lemma step_start:
  "start_of_doc c \<Longrightarrow>
   \<exists>all' dl'. predict_step itf (all_labels, dl) c = Inr (all', dl') \<and>
      dl' \<noteq> Unbound \<and> is_list dl' = (\<not> end_of_doc c)"
  by (auto simp: Let_def)

lemma step_ndarray:
  "\<not> start_of_doc c \<Longrightarrow>
   predict_step itf (all_labels, NdArray xs) c =
     Inl (AttributeError ''numpy.ndarray object has no attribute append'')"
  by simp

lemma step_unbound:
  "\<not> start_of_doc c \<Longrightarrow>
   predict_step itf (all_labels, Unbound) c = Inl (UnboundLocalError ''doc_labels'')"
  by simp

lemma loop_orphan:
  "dl \<noteq> Unbound \<Longrightarrow> is_list dl = (\<not> end_of_doc p) \<Longrightarrow>
   (if orphan_after_end (p # cs)
    then predict_loop itf (all_labels, dl) cs =
           Inl (AttributeError ''numpy.ndarray object has no attribute append'')
    else (\<exists>st. predict_loop itf (all_labels, dl) cs = Inr st))"
proof (induction cs arbitrary: dl p all_labels)
  case Nil
  then show ?case by simp
next
  case (Cons c cs)
  show ?case
  proof (cases "end_of_doc p \<and> \<not> start_of_doc c")
    case True
    with Cons.prems obtain xs where "dl = NdArray xs" by (cases dl) auto
    with True show ?thesis using step_ndarray[of c itf all_labels xs]
      by (simp del: predict_step.simps)
  next
    case False
    with Cons.prems have "is_list dl \<or> start_of_doc c" by auto
    from step_bound[OF Cons.prems(1) this, of itf all_labels]
    obtain all' dl' where st: "predict_step itf (all_labels, dl) c = Inr (all', dl')"
      and nb: "dl' \<noteq> Unbound" and il: "is_list dl' = (\<not> end_of_doc c)" by blast
    from Cons.IH[OF nb il, of all'] st False show ?thesis
      by (auto simp del: predict_step.simps)
  qed
qed

text \<open>
  Claim C3, as the code has it.  \<open>predict\<close> raises on exactly two kinds of malformed
  stream, and then returns no label: \<open>UnboundLocalError\<close> when the first chunk does not
  carry \<open>start_of_doc\<close> (so also when \<open>end_of_doc\<close> comes before any \<open>start_of_doc\<close>), and
  \<open>AttributeError\<close> when a chunk without \<open>start_of_doc\<close> directly follows a chunk with
  \<open>end_of_doc\<close>.  On every other stream it returns a list; a chunk with \<open>start_of_doc\<close>
  inside an open document does not raise.
\<close>

theorem predict_raises_on_orphan_chunks:
  "(headless chunks \<longrightarrow> predict itf chunks = Inl (UnboundLocalError ''doc_labels'')) \<and>
   (\<not> headless chunks \<and> orphan_after_end chunks \<longrightarrow>
      predict itf chunks = Inl (AttributeError ''numpy.ndarray object has no attribute append'')) \<and>
   (\<not> headless chunks \<and> \<not> orphan_after_end chunks \<longrightarrow> (\<exists>out. predict itf chunks = Inr out))"
proof (cases chunks)
  case Nil
  then show ?thesis by (simp add: headless_def predict_def)
next
  case (Cons c cs)
  show ?thesis
  proof (cases "start_of_doc c")
    case False
    then show ?thesis using Cons step_unbound[of c itf "[]"]
      by (simp add: headless_def predict_def del: predict_step.simps)
  next
    case True
    from step_start[OF True, of itf "[]" Unbound]
    obtain all' dl' where st: "predict_step itf ([], Unbound) c = Inr (all', dl')"
      and nb: "dl' \<noteq> Unbound" and il: "is_list dl' = (\<not> end_of_doc c)" by blast
    from loop_orphan[OF nb il, of cs itf all'] st True Cons show ?thesis
      by (auto simp: headless_def predict_def simp del: predict_step.simps split: if_splits)
  qed
qed

theorem predict_raises_on_orphan_chunks_witness:
  "headless [((), False, True, 1::nat, ())] \<and>
   predict (\<lambda>rows :: nat list list. rows) [((), False, True, 1::nat, ())] =
     Inl (UnboundLocalError ''doc_labels'') \<and>
   \<not> headless [((), True, True, 1::nat, ()), ((), False, True, 1, ())] \<and>
   orphan_after_end [((), True, True, 1::nat, ()), ((), False, True, 1, ())] \<and>
   predict (\<lambda>rows :: nat list list. rows)
     [((), True, True, 1::nat, ()), ((), False, True, 1, ())] =
     Inl (AttributeError ''numpy.ndarray object has no attribute append'') \<and>
   \<not> headless [((), True, False, 1::nat, ()), ((), True, True, 2, ())] \<and>
   \<not> orphan_after_end [((), True, False, 1::nat, ()), ((), True, True, 2, ())] \<and>
   (\<exists>out. predict (\<lambda>rows :: nat list list. rows)
      [((), True, False, 1::nat, ()), ((), True, True, 2, ())] = Inr out)"
proof -
  have h1: "headless [((), False, True, 1::nat, ())]"
    by (simp add: headless_def start_of_doc_def)
  have h2: "\<not> headless [((), True, True, 1::nat, ()), ((), False, True, 1, ())]"
    by (simp add: headless_def start_of_doc_def)
  have o2: "orphan_after_end [((), True, True, 1::nat, ()), ((), False, True, 1, ())]"
    by (simp add: start_of_doc_def end_of_doc_def)
  have h3: "\<not> headless [((), True, False, 1::nat, ()), ((), True, True, 2, ())]"
    by (simp add: headless_def start_of_doc_def)
  have o3: "\<not> orphan_after_end [((), True, False, 1::nat, ()), ((), True, True, 2, ())]"
    by (simp add: start_of_doc_def end_of_doc_def)
  from predict_raises_on_orphan_chunks[of "[((), False, True, 1::nat, ())]" "\<lambda>rows. rows"]
    predict_raises_on_orphan_chunks[of "[((), True, True, 1::nat, ()), ((), False, True, 1, ())]"
      "\<lambda>rows. rows"]
    predict_raises_on_orphan_chunks[of "[((), True, False, 1::nat, ()), ((), True, True, 2, ())]"
      "\<lambda>rows. rows"]
    h1 h2 o2 h3 o3
  show ?thesis by blast
qed

text \<open>
  A stream that breaks the boundary invariant and is not refused: a second chunk with
  \<open>start_of_doc\<close> arrives while the first document is open.  \<open>predict\<close> drops the open
  accumulator and returns one label, computed from the second chunk alone.
\<close>

theorem double_start_is_not_raised:
  "\<not> boundary_invariant [((), True, False, 1::nat, ()), ((), True, True, 2, ())] \<and>
   predict (\<lambda>rows :: nat list list. rows)
     [((), True, False, 1::nat, ()), ((), True, True, 2, ())] = Inr [PyList [PyObj [2]]]"
  by (simp add: boundary_invariant_def predict_def start_of_doc_def end_of_doc_def label_def
      mode_def unique_def tolist_def Let_def)

section \<open>Proofs: \<open>predict_proba\<close>\<close>

text \<open>
  Claim C6.  For every input, \<open>predict_proba\<close> of the ordinal head, and of the
  comparison head that inherits it, raises \<open>AttributeError\<close> with the message that the
  model does not support \<open>predict_proba\<close>, and returns no value.
\<close>

theorem predict_proba_always_raises:
  "(predict_proba (X :: 'x) (context :: 'c option) :: py_error + 'r) =
     Inl (AttributeError ''`Regressor` model does not support `predict_proba`.'') \<and>
   (comparison_predict_proba X context :: py_error + 'r) =
     Inl (AttributeError ''`Regressor` model does not support `predict_proba`.'') \<and>
   (\<nexists>v :: 'r. predict_proba X context = Inr v) \<and>
   (\<nexists>v :: 'r. comparison_predict_proba X context = Inr v)"
  by (simp add: predict_proba_def comparison_predict_proba_def)

theorem predict_proba_always_raises_witness:
  "(predict_proba [''some text''] (None :: unit option) :: py_error + nat list) =
     Inl (AttributeError ''`Regressor` model does not support `predict_proba`.'') \<and>
   (\<nexists>v :: nat list. comparison_predict_proba [(''a'', ''b'')] (None :: unit option) = Inr v)"
  using predict_proba_always_raises[where 'r = "nat list", of "[''some text'']" "None :: unit option"]
    predict_proba_always_raises[where 'r = "nat list", of "[(''a'', ''b'')]" "None :: unit option"]
  by simp

section \<open>Proofs: the featurizer adapter\<close>

subsection \<open>End-of-sequence index\<close>











subsection \<open>Low-memory mode\<close>

lemma low_memory_layers_unchanged: "low_memory_layers cfg train layers = layers"
  by (simp add: low_memory_layers_def low_memory_statement_def map_idI)

text \<open>
  Claim C5, evaluated.  With \<open>low_memory_mode\<close> and \<open>train\<close> both true, the loop leaves
  the \<open>__call__\<close> of an encoder layer as it was: no \<open>recompute_grad\<close> wrapper is installed.
\<close>

theorem low_memory_mode_installs_no_wrapper:
  "low_memory_layers \<lparr>low_memory_mode = True\<rparr> True
     [\<lparr>call = LayerCall 0, trainable_weights = [''kernel'', ''bias'']\<rparr>] =
     [\<lparr>call = LayerCall 0, trainable_weights = [''kernel'', ''bias'']\<rparr>] \<and>
   call (hd (low_memory_layers \<lparr>low_memory_mode = True\<rparr> True
     [\<lparr>call = LayerCall 0, trainable_weights = [''kernel'', ''bias'']\<rparr>])) \<noteq>
     recompute_grad (LayerCall 0) [''kernel'', ''bias'']"
  by (simp add: low_memory_layers_unchanged recompute_grad_def)

section \<open>Proofs: the encoder shim\<close>



section \<open>Proofs: the comparison transform\<close>

lemma tensor_add_commute:
  fixes a b :: "'a::ab_semigroup_add tensor" and xs ys :: "'a tensor list"
  shows "tensor_add a b = tensor_add b a" and "tensor_add_list xs ys = tensor_add_list ys xs"
proof (induction a b and xs ys rule: tensor_add_tensor_add_list.induct)
  case (6 ys)
  then show ?case by (cases ys) simp_all
qed (simp_all add: add.commute)

lemma reduce_sum_row_swap:
  fixes row :: "'a::ab_semigroup_add tensor"
  shows "reduce_sum_row (swap_pair row) = reduce_sum_row row"
proof (induction row rule: swap_pair.induct)
  case (1 a b)
  then show ?case by (simp add: reduce_sum_row_def tensor_add_commute(1)[of a b])
qed simp_all

lemma map_result_swap:
  fixes batch :: "'a::ab_semigroup_add tensor list"
  shows "map_result reduce_sum_row (map swap_pair batch) = map_result reduce_sum_row batch"
  by (induction batch) (simp_all add: reduce_sum_row_swap split: sum.splits)

lemma reduce_sum_1_swap:
  fixes t :: "'a::ab_semigroup_add tensor"
  shows "reduce_sum_1 (swap_documents t) = reduce_sum_1 t"
  by (cases t) (simp_all add: reduce_sum_1_def map_result_swap)

lemma abs_reduce_sum_alt:
  "abs_reduce_sum key st =
     (case st key of
        None \<Rightarrow> Inl (KeyError key)
      | Some t \<Rightarrow>
          (case comparison_transform t of
             Inl e \<Rightarrow> Inl e
           | Inr s \<Rightarrow> Inr (st(key \<mapsto> s))))"
  by (simp add: abs_reduce_sum_def comparison_transform_def split: option.splits sum.splits)

lemma comparison_transform_swap:
  fixes t :: "'a::{ab_semigroup_add,abs} tensor"
  shows "comparison_transform (swap_documents t) = comparison_transform t"
  by (simp add: comparison_transform_def reduce_sum_1_swap)

lemma abs_reduce_sum_swapped:
  fixes st st' :: "'a::{ab_semigroup_add,abs} featurizer_state"
  assumes "swapped_on K st st'" and "key \<in> K"
  shows "(\<exists>e. abs_reduce_sum key st = Inl e \<and> abs_reduce_sum key st' = Inl e) \<or>
         (\<exists>s s'. abs_reduce_sum key st = Inr s \<and> abs_reduce_sum key st' = Inr s' \<and>
                  swapped_on (K - {key}) s s')"
proof (cases "st key")
  case None
  then have "st' key = None" using assms by (simp add: swapped_on_def)
  with None show ?thesis by (simp add: abs_reduce_sum_alt)
next
  case (Some t)
  then have s': "st' key = Some (swap_documents t)" using assms by (simp add: swapped_on_def)
  show ?thesis
  proof (cases "comparison_transform t")
    case (Inl e)
    with Some s' show ?thesis by (simp add: abs_reduce_sum_alt comparison_transform_swap)
  next
    case (Inr u)
    have "swapped_on (K - {key}) (st(key \<mapsto> u)) (st'(key \<mapsto> u))"
      using assms(1) by (auto simp: swapped_on_def)
    with Inr Some s' show ?thesis by (simp add: abs_reduce_sum_alt comparison_transform_swap)
  qed
qed

lemma swapped_on_empty: "swapped_on {} st st' \<Longrightarrow> st' = st"
  by (auto simp: swapped_on_def)

lemma swapped_on_swap_state:
  "swapped_on {''sequence_features'', ''features'', ''context''} st (swap_state st)"
  by (simp add: swapped_on_def swap_state_def)

lemma swapped_on_None: "swapped_on K st st' \<Longrightarrow> (st' key = None) = (st key = None)"
  by (auto simp: swapped_on_def)

lemma comparison_target_model_swap:
  fixes st :: "'a::{ab_semigroup_add,abs} featurizer_state"
  shows "comparison_target_model super_target_model (swap_state st) =
         comparison_target_model super_target_model st"
proof -
  let ?K3 = "{''sequence_features'', ''features'', ''context''}"
  let ?K2 = "{''features'', ''context''}"
  have k2: "?K3 - {''sequence_features''} = ?K2" by auto
  have k1: "?K2 - {''features''} = {''context''}" by auto
  from abs_reduce_sum_swapped[OF swapped_on_swap_state, of "''sequence_features''" st]
  consider (err) e where "abs_reduce_sum ''sequence_features'' st = Inl e"
      "abs_reduce_sum ''sequence_features'' (swap_state st) = Inl e"
    | (ok) s1 s1' where "abs_reduce_sum ''sequence_features'' st = Inr s1"
      "abs_reduce_sum ''sequence_features'' (swap_state st) = Inr s1'"
      "swapped_on ?K2 s1 s1'"
    unfolding k2 by auto
  then show ?thesis
  proof cases
    case err
    then show ?thesis by (simp add: comparison_target_model_def)
  next
    case ok
    from abs_reduce_sum_swapped[OF ok(3), of "''features''"]
    consider (err2) e where "abs_reduce_sum ''features'' s1 = Inl e"
        "abs_reduce_sum ''features'' s1' = Inl e"
      | (ok2) s2 s2' where "abs_reduce_sum ''features'' s1 = Inr s2"
        "abs_reduce_sum ''features'' s1' = Inr s2'"
        "swapped_on {''context''} s2 s2'"
      unfolding k1 by auto
    then show ?thesis
    proof cases
      case err2
      with ok show ?thesis by (simp add: comparison_target_model_def)
    next
      case ok2
      show ?thesis
      proof (cases "s2 ''context'' = None")
        case True
        then have n': "s2' ''context'' = None" using swapped_on_None[OF ok2(3)] by simp
        have "s2' = s2"
        proof
          fix key show "s2' key = s2 key"
            using ok2(3) True by (cases "key = ''context''") (auto simp: swapped_on_def)
        qed
        with ok ok2 True show ?thesis by (simp add: comparison_target_model_def)
      next
        case False
        then have n': "s2' ''context'' \<noteq> None" using swapped_on_None[OF ok2(3)] by simp
        from abs_reduce_sum_swapped[OF ok2(3), of "''context''"]
        consider (err3) e where "abs_reduce_sum ''context'' s2 = Inl e"
            "abs_reduce_sum ''context'' s2' = Inl e"
          | (ok3) s3 s3' where "abs_reduce_sum ''context'' s2 = Inr s3"
            "abs_reduce_sum ''context'' s2' = Inr s3'"
            "swapped_on {} s3 s3'"
          by auto
        then show ?thesis
        proof cases
          case err3
          with ok ok2 False n' show ?thesis by (simp add: comparison_target_model_def)
        next
          case ok3
          from swapped_on_empty[OF ok3(3)] have "s3' = s3" .
          with ok ok2 ok3 False n' show ?thesis by (simp add: comparison_target_model_def)
        qed
      qed
    qed
  qed
qed

lemma comparison_transform_pair:
  "comparison_transform (Tensor [Tensor [a, b]]) = Inr (Tensor [tf_abs (tensor_add a b)])"
  by (simp add: comparison_transform_def reduce_sum_1_def reduce_sum_row_def tf_abs_def)

text \<open>
  Claim C4.  The transform of an entry of the featurizer state, the sum over the pair
  axis followed by the elementwise absolute value, is the same for a tensor of document
  pairs and for the tensor with the two documents of every pair exchanged; for one pair
  it is the absolute value of the sum of the two documents' features.  So
  \<open>_target_model\<close> gives the same result (the same logits of the ordinal head, or the same
  error) for a featurizer state and for the state whose pooled features, per-token
  features and context features have the documents exchanged.
\<close>

theorem comparison_transform_symmetric:
  fixes t a b :: "'a::{ab_semigroup_add,abs} tensor" and st :: "'a featurizer_state"
  shows "comparison_transform (swap_documents t) = comparison_transform t \<and>
         comparison_transform (Tensor [Tensor [a, b]]) = Inr (Tensor [tf_abs (tensor_add a b)]) \<and>
         comparison_transform (Tensor [Tensor [a, b]]) = comparison_transform (Tensor [Tensor [b, a]]) \<and>
         comparison_target_model super_target_model (swap_state st) =
           comparison_target_model super_target_model st"
  using comparison_transform_swap[of t] comparison_transform_pair[of a b]
    comparison_transform_swap[of "Tensor [Tensor [a, b]]"]
    comparison_target_model_swap[of super_target_model st]
  by simp

theorem comparison_transform_symmetric_witness:
  "comparison_transform (Tensor [Tensor [Tensor [Scalar (2::int), Scalar (-5)],
                                        Tensor [Scalar 3, Scalar 4]]]) =
     Inr (Tensor [Tensor [Scalar 5, Scalar 1]]) \<and>
   comparison_transform (Tensor [Tensor [Tensor [Scalar 3, Scalar 4],
                                        Tensor [Scalar (2::int), Scalar (-5)]]]) =
     Inr (Tensor [Tensor [Scalar 5, Scalar 1]])"
proof -
  let ?a = "Tensor [Scalar (2::int), Scalar (-5)]" and ?b = "Tensor [Scalar (3::int), Scalar 4]"
  from comparison_transform_symmetric[of "Tensor [Tensor [?a, ?b]]" ?a ?b undefined Map.empty]
  have 1: "comparison_transform (Tensor [Tensor [?a, ?b]]) = Inr (Tensor [tf_abs (tensor_add ?a ?b)])"
    and 2: "comparison_transform (Tensor [Tensor [?a, ?b]]) = comparison_transform (Tensor [Tensor [?b, ?a]])"
    by blast+
  have 3: "tf_abs (tensor_add ?a ?b) = Tensor [Scalar 5, Scalar 1]"
    by (simp add: tf_abs_def)
  from 1 2 3 show ?thesis by simp
qed

section \<open>Proofs: the weight importer\<close>

subsection \<open>The loops collect the source entries and store them under rewritten names\<close>

lemma store_append:
  "store asarray rules m (es @ es') = store asarray rules (store asarray rules m es) es'"
  by (simp add: store_def)

lemma store_Cons:
  "store asarray rules m ((name, node) # es) =
     store asarray rules (m(rewrite_name rules name \<mapsto> asarray node)) es"
  by (simp add: store_def)

lemma weights_loop_entries:
  "weights_loop asarray rules g m names =
     (case member_entries g names of
        Inl e \<Rightarrow> Inl e
      | Inr es \<Rightarrow> Inr (store asarray rules m es))"
proof (induction names arbitrary: m)
  case Nil
  then show ?case by (simp add: store_def)
next
  case (Cons name names)
  show ?case
  proof (cases "getitem g name")
    case (Inl e)
    then show ?thesis by simp
  next
    case (Inr node)
    then show ?thesis
      by (simp add: Cons.IH store_def split: sum.splits)
  qed
qed

lemma layers_loop_entries:
  "layers_loop asarray rules f m layer_names =
     (case source_entries f layer_names of
        Inl e \<Rightarrow> Inl e
      | Inr es \<Rightarrow> Inr (store asarray rules m es))"
proof (induction layer_names arbitrary: m)
  case Nil
  then show ?case by (simp add: store_def)
next
  case (Cons name layer_names)
  show ?case
  proof (cases "getitem f name")
    case (Inl e)
    then show ?thesis by simp
  next
    case (Inr g)
    then show ?thesis
      by (simp add: Cons.IH weights_loop_entries store_append split: sum.splits)
  qed
qed

lemma dom_store:
  "dom (store asarray rules m es) = dom m \<union> rewrite_name rules ` fst ` set es"
proof (induction es arbitrary: m)
  case Nil
  then show ?case by (simp add: store_def)
next
  case (Cons e es)
  obtain name node where e: "e = (name, node)" by (cases e)
  have "dom (store asarray rules m (e # es)) =
        dom (m(rewrite_name rules name \<mapsto> asarray node)) \<union> rewrite_name rules ` fst ` set es"
    by (simp only: e store_Cons Cons.IH)
  also have "\<dots> = dom m \<union> rewrite_name rules ` fst ` set (e # es)"
    unfolding e dom_fun_upd by auto
  finally show ?case .
qed

lemma store_lookup:
  "store asarray rules m es =
     m ++ map_of (rev (map (\<lambda>(name, node). (rewrite_name rules name, asarray node)) es))"
proof (induction es arbitrary: m)
  case Nil
  then show ?case by (simp add: store_def)
next
  case (Cons e es)
  obtain name node where e: "e = (name, node)" by (cases e)
  let ?k = "rewrite_name rules name" and ?v = "asarray node"
  let ?rest = "map_of (rev (map (\<lambda>(name, node). (rewrite_name rules name, asarray node)) es))"
  have "store asarray rules m (e # es) = m(?k \<mapsto> ?v) ++ ?rest"
    by (simp only: e store_Cons Cons.IH)
  also have "m(?k \<mapsto> ?v) = m ++ map_of [(?k, ?v)]"
    by (simp only: map_of.simps map_add_upd map_add_empty fst_conv snd_conv)
  also have "(m ++ map_of [(?k, ?v)]) ++ ?rest = m ++ (map_of [(?k, ?v)] ++ ?rest)"
    by (simp only: map_add_assoc)
  also have "map_of [(?k, ?v)] ++ ?rest =
      map_of (rev (map (\<lambda>(name, node). (rewrite_name rules name, asarray node)) (e # es)))"
    unfolding e by (simp only: list.map rev.simps map_of_append prod.case)
  finally show ?case .
qed

lemma load_weights_entries:
  "load_weights_from_hdf5_group_by_name asarray file_attrs file_members rules =
     (case source_entries (model_weights_group file_attrs file_members)
             (load_attributes_from_hdf5_group (model_weights_group file_attrs file_members)
                ''layer_names'') of
        Inl e \<Rightarrow> Inl e
      | Inr es \<Rightarrow>
          Inr (map_of (rev (map (\<lambda>(name, node). (rewrite_name rules name, asarray node)) es))))"
  by (simp add: load_weights_from_hdf5_group_by_name_def Let_def layers_loop_entries
      store_lookup split: sum.splits)

lemma load_weights_dom:
  assumes "load_weights_from_hdf5_group_by_name asarray file_attrs file_members rules = Inr m"
  shows "\<exists>es. source_entries (model_weights_group file_attrs file_members)
             (load_attributes_from_hdf5_group (model_weights_group file_attrs file_members)
                ''layer_names'') = Inr es \<and>
            dom m = rewrite_name rules ` fst ` set es"
proof -
  let ?f = "model_weights_group file_attrs file_members"
  from assms have l: "layers_loop asarray rules ?f Map.empty
      (load_attributes_from_hdf5_group ?f ''layer_names'') = Inr m"
    by (simp add: load_weights_from_hdf5_group_by_name_def Let_def)
  then obtain es where es: "source_entries ?f (load_attributes_from_hdf5_group ?f ''layer_names'') = Inr es"
    and m: "m = store asarray rules Map.empty es"
    unfolding layers_loop_entries by (auto split: sum.splits)
  have "dom m = rewrite_name rules ` fst ` set es" unfolding m dom_store by simp
  with es show ?thesis by blast
qed

lemma load_weights_nested:
  assumes "map_of file_attrs ''layer_names'' = None"
    and "map_of file_members ''model_weights'' = Some (Group a ms)"
    and "map_of a ''layer_names'' \<noteq> None"
  shows "load_weights_from_hdf5_group_by_name asarray file_attrs file_members rules =
         load_weights_from_hdf5_group_by_name asarray a ms rules"
proof -
  have 1: "model_weights_group file_attrs file_members = Group a ms"
    using assms(1,2) by (simp add: model_weights_group_def)
  have 2: "model_weights_group a ms = Group a ms"
    using assms(3) by (auto simp: model_weights_group_def)
  show ?thesis by (simp only: load_weights_from_hdf5_group_by_name_def 1 2)
qed

subsection \<open>\<open>str.replace\<close> replaces every occurrence met from the left\<close>

lemma join_Cons: "ps \<noteq> [] \<Longrightarrow> join sep (p # ps) = p @ sep @ join sep ps"
  by (cases ps) simp_all

lemma join_Cons_char: "join sep ((c # p) # ps) = c # join sep (p # ps)"
  by (cases ps) simp_all

lemma join_prefix: "prefix p (join sep (p # ps))"
  by (cases ps) simp_all

lemma prefix_take: "prefix xs ys \<Longrightarrow> take (length xs) ys = xs"
  by (auto simp: prefix_def)

lemma replace_scan_pieces:
  "fro \<noteq> [] \<Longrightarrow>
   \<exists>pieces. pieces \<noteq> [] \<and> s = join fro pieces \<and> replace_scan fro to s = join to pieces \<and>
            (\<forall>p \<in> set pieces. \<not> sublist fro p)"
proof (induction fro to s rule: replace_scan.induct)
  case (1 fro to)
  have "[[]] \<noteq> [] \<and> [] = join fro [[]] \<and> replace_scan fro to [] = join to [[]] \<and>
        (\<forall>p \<in> set [[]]. \<not> sublist fro p)"
    using 1 by simp
  then show ?case by blast
next
  case (2 fro to c cs)
  show ?case
  proof (cases "take (length fro) (c # cs) = fro")
    case True
    from 2(1)[OF _ 2(3)] True 2(3) obtain ps where ps: "ps \<noteq> []"
      "drop (length fro) (c # cs) = join fro ps"
      "replace_scan fro to (drop (length fro) (c # cs)) = join to ps"
      "\<forall>p \<in> set ps. \<not> sublist fro p" by blast
    have s: "c # cs = fro @ drop (length fro) (c # cs)"
      using True append_take_drop_id[of "length fro" "c # cs"] by simp
    have a: "c # cs = join fro ([] # ps)"
      using s ps(1,2) by (simp only: join_Cons[OF ps(1)] append_Nil)
    have b: "replace_scan fro to (c # cs) = join to ([] # ps)"
      using True 2(3) ps(1,3) by (simp only: join_Cons[OF ps(1)] replace_scan.simps) simp
    have c: "\<forall>p \<in> set ([] # ps). \<not> sublist fro p" using ps(4) 2(3) by simp
    from a b c show ?thesis by blast
  next
    case False
    from 2(2)[OF _ 2(3)] False obtain ps where ps: "ps \<noteq> []"
      "cs = join fro ps" "replace_scan fro to cs = join to ps"
      "\<forall>p \<in> set ps. \<not> sublist fro p" by blast
    then obtain p ps' where pp: "ps = p # ps'" by (cases ps) auto
    have a: "c # cs = join fro ((c # p) # ps')" using ps(2) pp by (simp add: join_Cons_char)
    have b: "replace_scan fro to (c # cs) = join to ((c # p) # ps')"
      using False ps(3) pp by (simp add: join_Cons_char)
    have "prefix (c # p) (c # cs)" using ps(2) pp join_prefix[of p fro ps'] by simp
    then have "\<not> prefix fro (c # p)"
      using False prefix_take[of fro "c # cs"] prefix_order.trans by blast
    then have "\<not> sublist fro (c # p)" using ps(4) pp by (simp add: sublist_Cons_right)
    then have c: "\<forall>q \<in> set ((c # p) # ps'). \<not> sublist fro q" using ps(4) pp by simp
    from a b c show ?thesis by blast
  qed
qed

lemma replace_pieces:
  "fro \<noteq> [] \<Longrightarrow>
   \<exists>pieces. pieces \<noteq> [] \<and> s = join fro pieces \<and> replace s fro to = join to pieces \<and>
            (\<forall>p \<in> set pieces. \<not> sublist fro p)"
  using replace_scan_pieces[of fro s to] by (simp add: replace_def)

lemma rewrite_name_Nil: "rewrite_name [] name = name"
  by (simp add: rewrite_name_def)

lemma rewrite_name_Cons:
  "rewrite_name ((fro, to) # rest) name = rewrite_name rest (replace name fro to)"
  by (simp add: rewrite_name_def)

text \<open>
  Claim C8.  For every archive and every list of rewrite rules, the importer returns the
  dictionary that holds, for every source weight name of the archive (read layer by
  layer; a later entry overwrites an earlier one with the same key), the stored object
  under the rewritten name, or raises at the first failed lookup; so the keys of the
  result are exactly the rewritten source names.  A name is rewritten by applying the
  rules in list order.  One rule with a non-empty pattern cuts the name at the occurrences
  of the pattern into pieces that hold no occurrence, and joins the pieces with the
  replacement: every occurrence met from the left is replaced, as literal text.  A file
  without a \<open>layer_names\<close> attribute whose member \<open>model_weights\<close> is a group with that
  attribute gives the same result as the flat archive made of that group.
\<close>

theorem load_weights_keys_are_rewritten_names:
  "load_weights_from_hdf5_group_by_name asarray file_attrs file_members rules =
     (case source_entries (model_weights_group file_attrs file_members)
             (load_attributes_from_hdf5_group (model_weights_group file_attrs file_members)
                ''layer_names'') of
        Inl e \<Rightarrow> Inl e
      | Inr es \<Rightarrow>
          Inr (map_of (rev (map (\<lambda>(name, node). (rewrite_name rules name, asarray node)) es)))) \<and>
   (\<forall>m. load_weights_from_hdf5_group_by_name asarray file_attrs file_members rules = Inr m \<longrightarrow>
      (\<exists>es. source_entries (model_weights_group file_attrs file_members)
             (load_attributes_from_hdf5_group (model_weights_group file_attrs file_members)
                ''layer_names'') = Inr es \<and>
            dom m = rewrite_name rules ` fst ` set es)) \<and>
   rewrite_name [] name = name \<and>
   rewrite_name ((fro, to) # rest) name = rewrite_name rest (replace name fro to) \<and>
   (fro \<noteq> [] \<longrightarrow>
      (\<exists>pieces. pieces \<noteq> [] \<and> name = join fro pieces \<and> replace name fro to = join to pieces \<and>
                (\<forall>p \<in> set pieces. \<not> sublist fro p))) \<and>
   (map_of file_attrs ''layer_names'' = None \<and>
    map_of file_members ''model_weights'' = Some (Group a ms) \<and>
    map_of a ''layer_names'' \<noteq> None \<longrightarrow>
      load_weights_from_hdf5_group_by_name asarray file_attrs file_members rules =
      load_weights_from_hdf5_group_by_name asarray a ms rules)"
  using load_weights_entries[of asarray file_attrs file_members rules]
    load_weights_dom[of asarray file_attrs file_members rules]
    rewrite_name_Nil[of name] rewrite_name_Cons[of fro to rest name]
    replace_pieces[of fro name to]
    load_weights_nested[of file_attrs file_members a ms asarray rules]
  by blast

theorem load_weights_keys_are_rewritten_names_witness:
  "(\<exists>m. load_weights_from_hdf5_group_by_name (\<lambda>node :: nat h5. node) []
          [(''model_weights'',
            Group [(''layer_names'', [''l1''])]
              [(''l1'', Group [(''weight_names'', [''l1/kernel:0'', ''l1/bias:0''])]
                         [(''l1/kernel:0'', Dataset [] 10), (''l1/bias:0'', Dataset [] 20)])])]
          [(''/'', ''.''), ('':0'', [])] = Inr m \<and>
        dom m = {''l1.kernel'', ''l1.bias''}) \<and>
   load_weights_from_hdf5_group_by_name (\<lambda>node :: nat h5. node) []
          [(''model_weights'',
            Group [(''layer_names'', [''l1''])]
              [(''l1'', Group [(''weight_names'', [''l1/kernel:0'', ''l1/bias:0''])]
                         [(''l1/kernel:0'', Dataset [] 10), (''l1/bias:0'', Dataset [] 20)])])]
          [(''/'', ''.''), ('':0'', [])] =
   load_weights_from_hdf5_group_by_name (\<lambda>node :: nat h5. node)
          [(''layer_names'', [''l1''])]
          [(''l1'', Group [(''weight_names'', [''l1/kernel:0'', ''l1/bias:0''])]
                     [(''l1/kernel:0'', Dataset [] 10), (''l1/bias:0'', Dataset [] 20)])]
          [(''/'', ''.''), ('':0'', [])]"
proof -
  let ?a = "[(''layer_names'', [''l1''])]"
  let ?ms = "[(''l1'', Group [(''weight_names'', [''l1/kernel:0'', ''l1/bias:0''])]
                     [(''l1/kernel:0'', Dataset [] (10::nat)), (''l1/bias:0'', Dataset [] 20)])]"
  let ?members = "[(''model_weights'', Group ?a ?ms)]"
  let ?rules = "[(''/'', ''.''), ('':0'', [])]"
  note T = load_weights_keys_are_rewritten_names[where asarray = "\<lambda>node :: nat h5. node"
      and file_attrs = "[]" and file_members = ?members and rules = ?rules
      and a = ?a and ms = ?ms]
  have g: "model_weights_group [] ?members = Group ?a ?ms"
    by (simp add: model_weights_group_def)
  have es: "source_entries (Group ?a ?ms) (load_attributes_from_hdf5_group (Group ?a ?ms) ''layer_names'') =
      Inr [(''l1/kernel:0'', Dataset [] 10), (''l1/bias:0'', Dataset [] 20)]"
    by (simp add: load_attributes_from_hdf5_group_def)
  have k1: "rewrite_name ?rules ''l1/kernel:0'' = ''l1.kernel''"
    by (simp add: rewrite_name_def replace_def)
  have k2: "rewrite_name ?rules ''l1/bias:0'' = ''l1.bias''"
    by (simp add: rewrite_name_def replace_def)
  note T1 = T[THEN conjunct1]
  note T2 = T[THEN conjunct2, THEN conjunct1]
  note T6 = T[THEN conjunct2, THEN conjunct2, THEN conjunct2, THEN conjunct2, THEN conjunct2]
  from T1 obtain m where m: "load_weights_from_hdf5_group_by_name (\<lambda>node :: nat h5. node) []
      ?members ?rules = Inr m"
    by (simp only: g es sum.case)
  from T2 m obtain es' where e': "source_entries (model_weights_group [] ?members)
      (load_attributes_from_hdf5_group (model_weights_group [] ?members) ''layer_names'') = Inr es'"
    and d: "dom m = rewrite_name ?rules ` fst ` set es'" by blast
  from e' have "es' = [(''l1/kernel:0'', Dataset [] 10), (''l1/bias:0'', Dataset [] 20)]"
    by (simp only: g es sum.inject)
  with d have "dom m = rewrite_name ?rules ` fst ` set [(''l1/kernel:0'', Dataset [] (10::nat)), (''l1/bias:0'', Dataset [] 20)]"
    by (simp only:)
  then have dm: "dom m = {''l1.kernel'', ''l1.bias''}"
    by (simp only: list.set image_insert image_empty fst_conv k1 k2)
  have c1: "map_of [] ''layer_names'' = (None :: string list option)" by simp
  have c2: "map_of ?members ''model_weights'' = Some (Group ?a ?ms)" by simp
  have c3: "map_of ?a ''layer_names'' \<noteq> None" by simp
  from T6 c1 c2 c3 have n: "load_weights_from_hdf5_group_by_name (\<lambda>node :: nat h5. node) [] ?members ?rules =
      load_weights_from_hdf5_group_by_name (\<lambda>node :: nat h5. node) ?a ?ms ?rules"
    by blast
  from m dm n show ?thesis by blast
qed

end
